theory Spec2Isabelle
  imports Complex_Main "HOL-Library.Word"
begin

section \<open>The Shenandoah allocation pacer (shenandoahPacer.cpp)\<close>

text \<open>
  The model is of an LP64 build: \<open>size_t\<close>, \<open>uintx\<close>, \<open>intptr_t\<close> and \<open>jlong\<close> are
  64-bit words, read unsigned (\<open>unat\<close>) or in two's complement (\<open>sint\<close>, \<open><s\<close>) as the
  C++ type says. A \<open>double\<close> is modelled by the real number it denotes: the rounding
  of floating-point arithmetic is not modelled, and a computation whose \<open>double\<close>
  would be infinite or NaN is a fault of the model.
\<close>

type_synonym size_t = "64 word"
type_synonym intptr_t = "64 word"
type_synonym jlong = "64 word"
type_synonym jdouble = real

datatype fault =
    Assertion_failed
  | Not_finite
  | Conversion_undefined
  | Schedule_exhausted

subsection \<open>State and surroundings\<close>

text \<open>
  The fields \<open>_budget\<close>, \<open>_tax_rate\<close> and \<open>_delays\<close> of \<open>ShenandoahPacer\<close>. The class
  of \<open>_delays\<close> is declared outside this file, so its state is a type parameter and its
  \<open>add\<close> a parameter of \<open>pace_for_alloc\<close>.
\<close>

record 'h pacer =
  budget :: intptr_t
  tax_rate :: jdouble
  delays :: 'h

text \<open>
  The flags and the platform constant the file reads; they are declared elsewhere in
  the repository and are parameters here.
\<close>

record globals =
  ShenandoahPacing :: bool
  ShenandoahPacingCycleSlack :: size_t
  ShenandoahPacingIdleSlack :: size_t
  ShenandoahPacingMaxDelay :: size_t
  LogHeapWordSize :: nat

text \<open>What the setup functions ask of \<open>_heap\<close>.\<close>

record heap =
  heap_used :: size_t
  free_set_available :: size_t
  collection_set_live_data :: size_t
  heap_capacity :: size_t

text \<open>
  Other threads share \<open>_budget\<close> and \<open>_tax_rate\<close>. What they do between two steps of
  the thread under study is a list of stores.
\<close>

datatype other_thread = Store_budget intptr_t | Store_tax_rate jdouble

fun store :: "other_thread \<Rightarrow> 'h pacer \<Rightarrow> 'h pacer" where
  "store (Store_budget b) s = s\<lparr>budget := b\<rparr>"
| "store (Store_tax_rate t) s = s\<lparr>tax_rate := t\<rparr>"

definition interfere :: "other_thread list \<Rightarrow> 'h pacer \<Rightarrow> 'h pacer" where
  "interfere others s = fold store others s"

subsection \<open>Conversions and primitives\<close>

definition truncation :: "real \<Rightarrow> int" where
  "truncation x = (if 0 \<le> x then \<lfloor>x\<rfloor> else \<lceil>x\<rceil>)"

text \<open>
  A \<open>double\<close> converts to an integer type by discarding the fraction; C++ leaves the
  conversion undefined when the result does not fit.
\<close>

definition double_to_size_t :: "jdouble \<Rightarrow> fault + size_t" where
  "double_to_size_t x =
     (let i = truncation x
      in if 0 \<le> i \<and> i < 2 ^ 64 then Inr (word_of_int i) else Inl Conversion_undefined)"

definition double_to_intptr_t :: "jdouble \<Rightarrow> fault + intptr_t" where
  "double_to_intptr_t x =
     (let i = truncation x
      in if - (2 ^ 63) \<le> i \<and> i < 2 ^ 63 then Inr (word_of_int i)
         else Inl Conversion_undefined)"

definition size_t_to_double :: "size_t \<Rightarrow> jdouble" where
  "size_t_to_double w = real (unat w)"

definition jlong_to_double :: "jlong \<Rightarrow> jdouble" where
  "jlong_to_double w = real_of_int (sint w)"

definition MAX2_intptr_t :: "intptr_t \<Rightarrow> intptr_t \<Rightarrow> intptr_t" where
  "MAX2_intptr_t a b = (if b <s a then a else b)"

definition MAX2_double :: "jdouble \<Rightarrow> jdouble \<Rightarrow> jdouble" where
  "MAX2_double a b = (if b < a then a else b)"

text \<open>\<open>Atomic::cmpxchg(exchange_value, &_budget, compare_value)\<close> returns the old value.\<close>

definition cmpxchg :: "intptr_t \<Rightarrow> intptr_t \<Rightarrow> 'h pacer \<Rightarrow> intptr_t \<times> 'h pacer" where
  "cmpxchg exchange_value compare_value s =
     (budget s, if budget s = compare_value then s\<lparr>budget := exchange_value\<rparr> else s)"

subsection \<open>restart_with\<close>

text \<open>
  The compare-and-exchange loops run against a schedule: its n-th entry is what other
  threads store between the load and the \<open>cmpxchg\<close> of the n-th round. A schedule that
  ends before the loop does is the fault \<open>Schedule_exhausted\<close>.
\<close>

fun restart_loop :: "intptr_t \<Rightarrow> other_thread list list \<Rightarrow> 'h pacer \<Rightarrow> fault + 'h pacer" where
  "restart_loop initial [] s = Inl Schedule_exhausted"
| "restart_loop initial (others # sched) s =
     (let cur = budget s;
          (old, s') = cmpxchg initial cur (interfere others s)
      in if old \<noteq> cur then restart_loop initial sched s' else Inr s')"

definition restart_with ::
  "globals \<Rightarrow> jlong \<Rightarrow> jdouble \<Rightarrow> other_thread list list \<Rightarrow> 'h pacer \<Rightarrow> fault + 'h pacer" where
  "restart_with g non_taxable_bytes rate sched s =
     (case double_to_size_t (jlong_to_double non_taxable_bytes * rate) of
        Inl e \<Rightarrow> Inl e
      | Inr bytes \<Rightarrow>
          (let initial = drop_bit (LogHeapWordSize g) bytes
           in case restart_loop initial sched s of
                Inl e \<Rightarrow> Inl e
              | Inr s' \<Rightarrow> Inr (s'\<lparr>tax_rate := rate\<rparr>)))"

subsection \<open>claim_for_alloc\<close>

fun claim_loop ::
  "intptr_t \<Rightarrow> other_thread list list \<Rightarrow> 'h pacer \<Rightarrow> fault + (bool \<times> 'h pacer)" where
  "claim_loop tax [] s = Inl Schedule_exhausted"
| "claim_loop tax (others # sched) s =
     (let cur = budget s
      in if cur <s tax then Inr (False, s)
         else let new_val = cur - tax;
                  (old, s') = cmpxchg new_val cur (interfere others s)
              in if old \<noteq> cur then claim_loop tax sched s' else Inr (True, s'))"

definition claim_for_alloc ::
  "globals \<Rightarrow> size_t \<Rightarrow> bool \<Rightarrow> other_thread list list \<Rightarrow> 'h pacer
     \<Rightarrow> fault + (bool \<times> 'h pacer)" where
  "claim_for_alloc g words force sched s =
     (if \<not> ShenandoahPacing g then Inl Assertion_failed
      else case double_to_intptr_t (size_t_to_double words * tax_rate s) of
             Inl e \<Rightarrow> Inl e
           | Inr t \<Rightarrow> claim_loop (MAX2_intptr_t 1 t) sched s)"

subsection \<open>The phase setups\<close>

text \<open>
  With \<open>taxable = 0\<close> the quotient is infinite or NaN, and so is the product that
  \<open>restart_with\<close> converts to \<open>size_t\<close>: the fault \<open>Not_finite\<close>. The log lines change
  no state and are left out, and so is \<open>print_on\<close>, which only prints.
\<close>

definition setup_for_mark ::
  "globals \<Rightarrow> heap \<Rightarrow> other_thread list list \<Rightarrow> 'h pacer \<Rightarrow> fault + 'h pacer" where
  "setup_for_mark g h sched s =
     (if \<not> ShenandoahPacing g then Inl Assertion_failed
      else let used = heap_used h;
               free = free_set_available h;
               non_taxable = free * ShenandoahPacingCycleSlack g div 100;
               taxable = free - non_taxable
           in if taxable = 0 then Inl Not_finite
              else let tax = 1.0 * size_t_to_double used / size_t_to_double taxable;
                       tax = tax * 3;
                       tax = MAX2_double 1 tax;
                       tax = tax * 1.1
                   in restart_with g non_taxable tax sched s)"

definition setup_for_evac ::
  "globals \<Rightarrow> heap \<Rightarrow> other_thread list list \<Rightarrow> 'h pacer \<Rightarrow> fault + 'h pacer" where
  "setup_for_evac g h sched s =
     (if \<not> ShenandoahPacing g then Inl Assertion_failed
      else let cset = collection_set_live_data h;
               free = free_set_available h;
               non_taxable = free * ShenandoahPacingCycleSlack g div 100;
               taxable = free - non_taxable
           in if taxable = 0 then Inl Not_finite
              else let tax = 1.0 * size_t_to_double cset / size_t_to_double taxable;
                       tax = tax * 2;
                       tax = MAX2_double 1 tax;
                       tax = tax * 1.1
                   in restart_with g non_taxable tax sched s)"

definition setup_for_updaterefs ::
  "globals \<Rightarrow> heap \<Rightarrow> other_thread list list \<Rightarrow> 'h pacer \<Rightarrow> fault + 'h pacer" where
  "setup_for_updaterefs g h sched s =
     (if \<not> ShenandoahPacing g then Inl Assertion_failed
      else let used = heap_used h;
               free = free_set_available h;
               non_taxable = free * ShenandoahPacingCycleSlack g div 100;
               taxable = free - non_taxable
           in if taxable = 0 then Inl Not_finite
              else let tax = 1.0 * size_t_to_double used / size_t_to_double taxable;
                       tax = tax * 1;
                       tax = MAX2_double 1 tax;
                       tax = tax * 1.1
                   in restart_with g non_taxable tax sched s)"

definition setup_for_idle ::
  "globals \<Rightarrow> heap \<Rightarrow> other_thread list list \<Rightarrow> 'h pacer \<Rightarrow> fault + 'h pacer" where
  "setup_for_idle g h sched s =
     (if \<not> ShenandoahPacing g then Inl Assertion_failed
      else let initial = heap_capacity h * ShenandoahPacingIdleSlack g div 100;
               tax = 1
           in restart_with g initial tax sched s)"

subsection \<open>pace_for_alloc\<close>

text \<open>
  One round of the waiting loop meets: what other threads store while this one sleeps,
  the reading of \<open>os::elapsedTime()\<close> after the sleep, and the schedule of the claim
  made in that round.
\<close>

record tick =
  during_sleep :: "other_thread list"
  elapsedTime :: jdouble
  claim_sched :: "other_thread list list"

fun pace_loop ::
  "(size_t \<Rightarrow> 'h \<Rightarrow> 'h) \<Rightarrow> globals \<Rightarrow> size_t \<Rightarrow> size_t \<Rightarrow> jdouble \<Rightarrow> tick list
     \<Rightarrow> 'h pacer \<Rightarrow> fault + 'h pacer" where
  "pace_loop add g words max_wait_ms start [] s = Inl Schedule_exhausted"
| "pace_loop add g words max_wait_ms start (t # ticks) s =
     (let s1 = interfere (during_sleep t) s;
          end_time = elapsedTime t
      in case double_to_size_t ((end_time - start) * 1000) of
           Inl e \<Rightarrow> Inl e
         | Inr ms \<Rightarrow>
             if max_wait_ms < ms
             then (case claim_for_alloc g words True (claim_sched t)
                          (s1\<lparr>delays := add ms (delays s1)\<rparr>) of
                     Inl e \<Rightarrow> Inl e
                   | Inr (claimed, s2) \<Rightarrow> Inr s2)
             else (case claim_for_alloc g words False (claim_sched t) s1 of
                     Inl e \<Rightarrow> Inl e
                   | Inr (claimed, s2) \<Rightarrow>
                       if claimed then Inr (s2\<lparr>delays := add ms (delays s2)\<rparr>)
                       else pace_loop add g words max_wait_ms start ticks s2))"

definition pace_for_alloc ::
  "(size_t \<Rightarrow> 'h \<Rightarrow> 'h) \<Rightarrow> globals \<Rightarrow> size_t \<Rightarrow> other_thread list list \<Rightarrow> jdouble
     \<Rightarrow> tick list \<Rightarrow> 'h pacer \<Rightarrow> fault + 'h pacer" where
  "pace_for_alloc add g words fast_sched start ticks s =
     (if \<not> ShenandoahPacing g then Inl Assertion_failed
      else case claim_for_alloc g words False fast_sched s of
             Inl e \<Rightarrow> Inl e
           | Inr (claimed, s1) \<Rightarrow>
               if claimed then Inr s1
               else pace_loop add g words (ShenandoahPacingMaxDelay g) start ticks s1)"

section \<open>Properties\<close>

subsection \<open>Auxiliary facts\<close>

lemma store_delays: "delays (store w s) = delays s"
  by (cases w) simp_all

lemma interfere_delays: "delays (interfere others s) = delays s"
  unfolding interfere_def by (induction others arbitrary: s) (simp_all add: store_delays)

lemma interfere_Nil: "interfere [] s = s"
  by (simp add: interfere_def)

lemma restart_loop_result:
  "restart_loop initial sched s = Inr s' \<Longrightarrow> budget s' = initial \<and> delays s' = delays s"
proof (induction sched arbitrary: s)
  case Nil
  then show ?case by simp
next
  case (Cons others sched)
  show ?case
  proof (cases "budget (interfere others s) = budget s")
    case True
    with Cons.prems show ?thesis
      by (auto simp: cmpxchg_def interfere_delays)
  next
    case False
    with Cons.prems have "restart_loop initial sched (interfere others s) = Inr s'"
      by (simp add: cmpxchg_def)
    from Cons.IH [OF this] show ?thesis
      by (simp add: interfere_delays)
  qed
qed

lemma restart_loop_returns:
  "[] \<in> set sched \<Longrightarrow> \<exists>s'. restart_loop initial sched s = Inr s'"
proof (induction sched arbitrary: s)
  case Nil
  then show ?case by simp
next
  case (Cons others sched)
  show ?case
  proof (cases "budget (interfere others s) = budget s")
    case True
    then show ?thesis by (simp add: cmpxchg_def)
  next
    case False
    with Cons.prems have "[] \<in> set sched"
      by (auto simp: interfere_Nil)
    from Cons.IH [OF this] False show ?thesis
      by (simp add: cmpxchg_def)
  qed
qed

lemma restart_with_result:
  assumes "restart_with g non_taxable_bytes rate sched s = Inr s'"
  shows "\<exists>bytes. double_to_size_t (jlong_to_double non_taxable_bytes * rate) = Inr bytes
           \<and> s' = s\<lparr>budget := drop_bit (LogHeapWordSize g) bytes, tax_rate := rate\<rparr>"
proof (cases "double_to_size_t (jlong_to_double non_taxable_bytes * rate)")
  case (Inl e)
  with assms show ?thesis by (simp add: restart_with_def)
next
  case (Inr bytes)
  with assms obtain s1 where
    s1: "restart_loop (drop_bit (LogHeapWordSize g) bytes) sched s = Inr s1"
    and s': "s' = s1\<lparr>tax_rate := rate\<rparr>"
    by (auto simp: restart_with_def split: sum.splits)
  from restart_loop_result [OF s1] s' Inr show ?thesis
    by simp
qed

lemma claim_loop_undisturbed:
  "claim_loop tax ([] # sched) s
     = Inr (if budget s <s tax then (False, s) else (True, s\<lparr>budget := budget s - tax\<rparr>))"
  by (simp add: cmpxchg_def interfere_Nil)

lemma claim_loop_depleted:
  "budget s <s tax \<Longrightarrow> claim_loop tax (others # sched) s = Inr (False, s)"
  by simp

lemma claim_loop_delays:
  "claim_loop tax sched s = Inr (claimed, s') \<Longrightarrow> delays s' = delays s"
proof (induction sched arbitrary: s)
  case Nil
  then show ?case by simp
next
  case (Cons others sched)
  show ?case
  proof (cases "budget s <s tax")
    case True
    with Cons.prems show ?thesis by simp
  next
    case False
    note enough = this
    show ?thesis
    proof (cases "budget (interfere others s) = budget s")
      case True
      with enough Cons.prems show ?thesis
        by (auto simp: cmpxchg_def interfere_delays)
    next
      case False
      with enough Cons.prems
      have "claim_loop tax sched (interfere others s) = Inr (claimed, s')"
        by (simp add: cmpxchg_def)
      from Cons.IH [OF this] show ?thesis
        by (simp add: interfere_delays)
    qed
  qed
qed

lemma claim_loop_observed:
  assumes "claim_loop tax sched s = Inr (claimed, s')"
  shows "if claimed then \<exists>cur. \<not> cur <s tax \<and> budget s' = cur - tax
         else budget s' <s tax"
  using assms
proof (induction sched arbitrary: s)
  case Nil
  then show ?case by simp
next
  case (Cons others sched)
  show ?case
  proof (cases "budget s <s tax")
    case True
    with Cons.prems show ?thesis by auto
  next
    case False
    note enough = this
    show ?thesis
    proof (cases "budget (interfere others s) = budget s")
      case True
      with enough Cons.prems show ?thesis
        by (auto simp: cmpxchg_def)
    next
      case False
      with enough Cons.prems
      have "claim_loop tax sched (interfere others s) = Inr (claimed, s')"
        by (simp add: cmpxchg_def)
      then show ?thesis by (rule Cons.IH)
    qed
  qed
qed

lemma MAX2_intptr_t_ge_1: "1 <=s MAX2_intptr_t 1 t"
  by (simp add: MAX2_intptr_t_def word_sle_eq word_sless_alt)

lemma sint_diff_no_wrap:
  fixes cur tax :: "64 word"
  assumes "1 <=s tax" and "\<not> cur <s tax"
  shows "sint (cur - tax) = sint cur - sint tax"
proof -
  have lo: "1 \<le> sint tax" and hi: "sint tax \<le> sint cur"
    using assms by (simp_all add: word_sle_eq word_sless_alt)
  have "sint cur < 2 ^ 63" using sint_lt [of cur] by simp
  with lo hi have "- (2 ^ 63) \<le> sint cur - sint tax" "sint cur - sint tax < 2 ^ 63"
    by simp_all
  then show ?thesis
    by (simp add: sint_word_ariths signed_take_bit_int_eq_self)
qed

lemma sint_word_of_int_64:
  fixes i :: int
  assumes "- (2 ^ 63) \<le> i" and "i < 2 ^ 63"
  shows "sint (word_of_int i :: 64 word) = i"
  using signed_take_bit_int_eq_self [of 63 i] assms
  by (simp add: sint_sbintrunc')

lemma sint_double_to_intptr_t:
  assumes "double_to_intptr_t x = Inr t"
  shows "sint t = truncation x"
proof -
  from assms have "- (2 ^ 63) \<le> truncation x" "truncation x < 2 ^ 63"
    and "t = word_of_int (truncation x)"
    by (auto simp: double_to_intptr_t_def Let_def split: if_splits)
  then show ?thesis
    using sint_word_of_int_64 [of "truncation x"] by simp
qed

lemma sint_MAX2_intptr_t: "sint (MAX2_intptr_t a b) = max (sint a) (sint b)"
  by (simp add: MAX2_intptr_t_def word_sless_alt max_def)

lemma restart_with_installs:
  assumes "restart_with g non_taxable_bytes rate sched s = Inr s'"
  shows "tax_rate s' = rate"
    and "budget s' = drop_bit (LogHeapWordSize g)
           (word_of_int (truncation (jlong_to_double non_taxable_bytes * rate)))"
proof -
  from restart_with_result [OF assms] obtain bytes where
    bytes: "double_to_size_t (jlong_to_double non_taxable_bytes * rate) = Inr bytes"
    and s': "s' = s\<lparr>budget := drop_bit (LogHeapWordSize g) bytes, tax_rate := rate\<rparr>"
    by blast
  from s' show "tax_rate s' = rate" by simp
  from bytes have "bytes = word_of_int (truncation (jlong_to_double non_taxable_bytes * rate))"
    by (auto simp: double_to_size_t_def Let_def split: if_splits)
  with s' show "budget s' = drop_bit (LogHeapWordSize g)
           (word_of_int (truncation (jlong_to_double non_taxable_bytes * rate)))"
    by simp
qed

lemma MAX2_double_max: "MAX2_double a b = max a b"
  by (simp add: MAX2_double_def max_def)

lemma surcharged_floor: "1.1 \<le> MAX2_double 1 x * 1.1"
  by (simp add: MAX2_double_max)

lemma setup_for_mark_restarts:
  assumes "setup_for_mark g h sched s = Inr s'"
  shows "\<exists>rate. 1.1 \<le> rate \<and>
           restart_with g (free_set_available h * ShenandoahPacingCycleSlack g div 100)
             rate sched s = Inr s'"
  using assms surcharged_floor
  by (auto simp: setup_for_mark_def Let_def simp del: times_divide_eq_right split: if_splits)

lemma setup_for_evac_restarts:
  assumes "setup_for_evac g h sched s = Inr s'"
  shows "\<exists>rate. 1.1 \<le> rate \<and>
           restart_with g (free_set_available h * ShenandoahPacingCycleSlack g div 100)
             rate sched s = Inr s'"
  using assms surcharged_floor
  by (auto simp: setup_for_evac_def Let_def simp del: times_divide_eq_right split: if_splits)

lemma setup_for_updaterefs_restarts:
  assumes "setup_for_updaterefs g h sched s = Inr s'"
  shows "\<exists>rate. 1.1 \<le> rate \<and>
           restart_with g (free_set_available h * ShenandoahPacingCycleSlack g div 100)
             rate sched s = Inr s'"
  using assms surcharged_floor
  by (auto simp: setup_for_updaterefs_def Let_def simp del: times_divide_eq_right split: if_splits)

lemma setup_for_idle_restarts:
  assumes "setup_for_idle g h sched s = Inr s'"
  shows "restart_with g (heap_capacity h * ShenandoahPacingIdleSlack g div 100) 1 sched s = Inr s'"
  using assms by (auto simp: setup_for_idle_def Let_def split: if_splits)

text \<open>The four setups at a heap with 90 MB used, 10 MB free and 1000 MB capacity.\<close>

lemma example_mark:
  "setup_for_mark
       \<lparr>ShenandoahPacing = True, ShenandoahPacingCycleSlack = 10,
          ShenandoahPacingIdleSlack = 1, ShenandoahPacingMaxDelay = 10, LogHeapWordSize = 3\<rparr>
       \<lparr>heap_used = 94371840, free_set_available = 10485760,
          collection_set_live_data = 9437184, heap_capacity = 1048576000\<rparr>
       [[]] \<lparr>budget = 500, tax_rate = 1, delays = ()\<rparr>
     = Inr \<lparr>budget = 4325376, tax_rate = 33, delays = ()\<rparr>"
  by (simp add: setup_for_mark_def Let_def MAX2_double_def size_t_to_double_def
      restart_with_def double_to_size_t_def truncation_def jlong_to_double_def
      cmpxchg_def interfere_def drop_bit_eq_div)

lemma example_evac:
  "setup_for_evac
       \<lparr>ShenandoahPacing = True, ShenandoahPacingCycleSlack = 10,
          ShenandoahPacingIdleSlack = 1, ShenandoahPacingMaxDelay = 10, LogHeapWordSize = 3\<rparr>
       \<lparr>heap_used = 94371840, free_set_available = 10485760,
          collection_set_live_data = 9437184, heap_capacity = 1048576000\<rparr>
       [[]] \<lparr>budget = 500, tax_rate = 1, delays = ()\<rparr>
     = Inr \<lparr>budget = 288358, tax_rate = 2.2, delays = ()\<rparr>"
  by (simp add: setup_for_evac_def Let_def MAX2_double_def size_t_to_double_def
      restart_with_def double_to_size_t_def truncation_def jlong_to_double_def
      cmpxchg_def interfere_def drop_bit_eq_div)

lemma example_updaterefs:
  "setup_for_updaterefs
       \<lparr>ShenandoahPacing = True, ShenandoahPacingCycleSlack = 10,
          ShenandoahPacingIdleSlack = 1, ShenandoahPacingMaxDelay = 10, LogHeapWordSize = 3\<rparr>
       \<lparr>heap_used = 94371840, free_set_available = 10485760,
          collection_set_live_data = 9437184, heap_capacity = 1048576000\<rparr>
       [[]] \<lparr>budget = 500, tax_rate = 1, delays = ()\<rparr>
     = Inr \<lparr>budget = 1441792, tax_rate = 11, delays = ()\<rparr>"
  by (simp add: setup_for_updaterefs_def Let_def MAX2_double_def size_t_to_double_def
      restart_with_def double_to_size_t_def truncation_def jlong_to_double_def
      cmpxchg_def interfere_def drop_bit_eq_div)

lemma example_idle:
  "setup_for_idle
       \<lparr>ShenandoahPacing = True, ShenandoahPacingCycleSlack = 10,
          ShenandoahPacingIdleSlack = 1, ShenandoahPacingMaxDelay = 10, LogHeapWordSize = 3\<rparr>
       \<lparr>heap_used = 94371840, free_set_available = 10485760,
          collection_set_live_data = 9437184, heap_capacity = 1048576000\<rparr>
       [[]] \<lparr>budget = 500, tax_rate = 1, delays = ()\<rparr>
     = Inr \<lparr>budget = 1310720, tax_rate = 1, delays = ()\<rparr>"
  by (simp add: setup_for_idle_def Let_def
      restart_with_def double_to_size_t_def truncation_def jlong_to_double_def
      cmpxchg_def interfere_def drop_bit_eq_div)

lemma claim_for_alloc_delays:
  "claim_for_alloc g words force sched s = Inr (claimed, s') \<Longrightarrow> delays s' = delays s"
  by (auto simp: claim_for_alloc_def split: if_splits sum.splits dest: claim_loop_delays)

lemma pace_loop_exit:
  assumes "pace_loop add g words max_wait_ms start ticks s = Inr s'"
  shows "\<exists>pre t post ms.
           ticks = pre @ t # post
           \<and> double_to_size_t ((elapsedTime t - start) * 1000) = Inr ms
           \<and> delays s' = add ms (delays s)
           \<and> (\<forall>u \<in> set pre. \<exists>m. double_to_size_t ((elapsedTime u - start) * 1000) = Inr m
                  \<and> m \<le> max_wait_ms)"
  using assms
proof (induction ticks arbitrary: s)
  case Nil
  then show ?case by simp
next
  case (Cons t ticks)
  let ?s1 = "interfere (during_sleep t) s"
  from Cons.prems obtain ms where
    ms: "double_to_size_t ((elapsedTime t - start) * 1000) = Inr ms"
    by (cases "double_to_size_t ((elapsedTime t - start) * 1000)") (simp_all add: Let_def)
  show ?case
  proof (cases "max_wait_ms < ms")
    case True
    with Cons.prems ms obtain claimed where
      "claim_for_alloc g words True (claim_sched t) (?s1\<lparr>delays := add ms (delays ?s1)\<rparr>)
         = Inr (claimed, s')"
      by (auto simp: Let_def split: sum.splits)
    from claim_for_alloc_delays [OF this] have "delays s' = add ms (delays s)"
      by (simp add: interfere_delays)
    with ms have "t # ticks = [] @ t # ticks
        \<and> double_to_size_t ((elapsedTime t - start) * 1000) = Inr ms
        \<and> delays s' = add ms (delays s)
        \<and> (\<forall>u \<in> set []. \<exists>m. double_to_size_t ((elapsedTime u - start) * 1000) = Inr m
               \<and> m \<le> max_wait_ms)"
      by simp
    then show ?thesis by blast
  next
    case False
    with Cons.prems ms obtain claimed s2 where
      claim: "claim_for_alloc g words False (claim_sched t) ?s1 = Inr (claimed, s2)"
      and rest: "if claimed then s' = s2\<lparr>delays := add ms (delays s2)\<rparr>
                 else pace_loop add g words max_wait_ms start ticks s2 = Inr s'"
      by (auto simp: Let_def split: sum.splits if_splits)
    from claim_for_alloc_delays [OF claim] have s2: "delays s2 = delays s"
      by (simp add: interfere_delays)
    show ?thesis
    proof (cases claimed)
      case True
      with rest s2 have "delays s' = add ms (delays s)" by simp
      with ms have "t # ticks = [] @ t # ticks
          \<and> double_to_size_t ((elapsedTime t - start) * 1000) = Inr ms
          \<and> delays s' = add ms (delays s)
          \<and> (\<forall>u \<in> set []. \<exists>m. double_to_size_t ((elapsedTime u - start) * 1000) = Inr m
                 \<and> m \<le> max_wait_ms)"
        by simp
      then show ?thesis by blast
    next
      case unclaimed: False
      with rest have "pace_loop add g words max_wait_ms start ticks s2 = Inr s'" by simp
      from Cons.IH [OF this] s2 obtain pre t' post ms' where
        split: "ticks = pre @ t' # post"
        and ms': "double_to_size_t ((elapsedTime t' - start) * 1000) = Inr ms'"
        and added: "delays s' = add ms' (delays s)"
        and before: "\<forall>u \<in> set pre. \<exists>m. double_to_size_t ((elapsedTime u - start) * 1000) = Inr m
               \<and> m \<le> max_wait_ms"
        by auto
      from ms False before
      have "\<forall>u \<in> set (t # pre). \<exists>m. double_to_size_t ((elapsedTime u - start) * 1000) = Inr m
               \<and> m \<le> max_wait_ms"
        by auto
      with split ms' added have "t # ticks = (t # pre) @ t' # post
          \<and> double_to_size_t ((elapsedTime t' - start) * 1000) = Inr ms'
          \<and> delays s' = add ms' (delays s)
          \<and> (\<forall>u \<in> set (t # pre). \<exists>m. double_to_size_t ((elapsedTime u - start) * 1000) = Inr m
                 \<and> m \<le> max_wait_ms)"
        by simp
      then show ?thesis by blast
    qed
  qed
qed

text \<open>
  The round whose reading is recorded is the one where the loop stops: on the rounds
  before it alone the loop is still running, and with that round added it returns.
\<close>

lemma pace_loop_stopping_round:
  assumes "pace_loop add g words max_wait_ms start ticks s = Inr s'"
  shows "\<exists>pre t post ms.
           ticks = pre @ t # post
           \<and> double_to_size_t ((elapsedTime t - start) * 1000) = Inr ms
           \<and> delays s' = add ms (delays s)
           \<and> (\<forall>u \<in> set pre. \<exists>m. double_to_size_t ((elapsedTime u - start) * 1000) = Inr m
                  \<and> m \<le> max_wait_ms)
           \<and> pace_loop add g words max_wait_ms start pre s = Inl Schedule_exhausted
           \<and> pace_loop add g words max_wait_ms start (pre @ [t]) s = Inr s'"
  using assms
proof (induction ticks arbitrary: s)
  case Nil
  then show ?case by simp
next
  case (Cons t ticks)
  let ?s1 = "interfere (during_sleep t) s"
  from Cons.prems obtain ms where
    ms: "double_to_size_t ((elapsedTime t - start) * 1000) = Inr ms"
    by (cases "double_to_size_t ((elapsedTime t - start) * 1000)") (simp_all add: Let_def)
  have stops_here: ?case
    if added: "delays s' = add ms (delays s)"
      and alone: "pace_loop add g words max_wait_ms start [t] s = Inr s'"
  proof -
    from ms added alone have "t # ticks = [] @ t # ticks
        \<and> double_to_size_t ((elapsedTime t - start) * 1000) = Inr ms
        \<and> delays s' = add ms (delays s)
        \<and> (\<forall>u \<in> set []. \<exists>m. double_to_size_t ((elapsedTime u - start) * 1000) = Inr m
               \<and> m \<le> max_wait_ms)
        \<and> pace_loop add g words max_wait_ms start [] s = Inl Schedule_exhausted
        \<and> pace_loop add g words max_wait_ms start ([] @ [t]) s = Inr s'"
      by simp
    then show ?thesis by blast
  qed
  show ?case
  proof (cases "max_wait_ms < ms")
    case True
    with Cons.prems ms obtain claimed where
      forced: "claim_for_alloc g words True (claim_sched t)
          (?s1\<lparr>delays := add ms (delays ?s1)\<rparr>) = Inr (claimed, s')"
      by (auto simp: Let_def split: sum.splits)
    from claim_for_alloc_delays [OF forced] have "delays s' = add ms (delays s)"
      by (simp add: interfere_delays)
    moreover from ms True forced
    have "pace_loop add g words max_wait_ms start [t] s = Inr s'"
      by (simp add: Let_def)
    ultimately show ?thesis by (rule stops_here)
  next
    case False
    with Cons.prems ms obtain claimed s2 where
      claim: "claim_for_alloc g words False (claim_sched t) ?s1 = Inr (claimed, s2)"
      and rest: "if claimed then s' = s2\<lparr>delays := add ms (delays s2)\<rparr>
                 else pace_loop add g words max_wait_ms start ticks s2 = Inr s'"
      by (auto simp: Let_def split: sum.splits if_splits)
    from claim_for_alloc_delays [OF claim] have s2: "delays s2 = delays s"
      by (simp add: interfere_delays)
    have step: "pace_loop add g words max_wait_ms start (t # rest) s
        = (if claimed then Inr (s2\<lparr>delays := add ms (delays s2)\<rparr>)
           else pace_loop add g words max_wait_ms start rest s2)" for rest
      using ms False claim by (simp add: Let_def)
    show ?thesis
    proof (cases claimed)
      case True
      with rest s2 have "delays s' = add ms (delays s)" by simp
      moreover from True rest have "pace_loop add g words max_wait_ms start [t] s = Inr s'"
        by (simp only: step if_True)
      ultimately show ?thesis by (rule stops_here)
    next
      case unclaimed: False
      with rest have "pace_loop add g words max_wait_ms start ticks s2 = Inr s'" by simp
      from Cons.IH [OF this] s2 obtain pre t' post ms' where
        split: "ticks = pre @ t' # post"
        and ms': "double_to_size_t ((elapsedTime t' - start) * 1000) = Inr ms'"
        and added: "delays s' = add ms' (delays s)"
        and before: "\<forall>u \<in> set pre. \<exists>m. double_to_size_t ((elapsedTime u - start) * 1000) = Inr m
               \<and> m \<le> max_wait_ms"
        and running: "pace_loop add g words max_wait_ms start pre s2 = Inl Schedule_exhausted"
        and stopped: "pace_loop add g words max_wait_ms start (pre @ [t']) s2 = Inr s'"
        by auto
      from ms False before
      have before': "\<forall>u \<in> set (t # pre). \<exists>m.
          double_to_size_t ((elapsedTime u - start) * 1000) = Inr m \<and> m \<le> max_wait_ms"
        by auto
      from unclaimed running
      have running': "pace_loop add g words max_wait_ms start (t # pre) s = Inl Schedule_exhausted"
        by (simp only: step if_False)
      from unclaimed stopped
      have stopped': "pace_loop add g words max_wait_ms start ((t # pre) @ [t']) s = Inr s'"
        by (simp only: step if_False append_Cons)
      from split ms' added before' running' stopped'
      have "t # ticks = (t # pre) @ t' # post
          \<and> double_to_size_t ((elapsedTime t' - start) * 1000) = Inr ms'
          \<and> delays s' = add ms' (delays s)
          \<and> (\<forall>u \<in> set (t # pre). \<exists>m. double_to_size_t ((elapsedTime u - start) * 1000) = Inr m
                 \<and> m \<le> max_wait_ms)
          \<and> pace_loop add g words max_wait_ms start (t # pre) s = Inl Schedule_exhausted
          \<and> pace_loop add g words max_wait_ms start ((t # pre) @ [t']) s = Inr s'"
        by simp
      then show ?thesis by blast
    qed
  qed
qed

text \<open>
  The waiting loop does not outlast the clock: when every claim meets an undisturbed
  round and some reading of the clock lies beyond the limit, the schedule suffices,
  and the call returns unless a conversion is undefined.
\<close>

lemma claim_loop_returns:
  "[] \<in> set sched \<Longrightarrow> \<exists>claimed s'. claim_loop tax sched s = Inr (claimed, s')"
proof (induction sched arbitrary: s)
  case Nil
  then show ?case by simp
next
  case (Cons others sched)
  show ?case
  proof (cases "budget s <s tax \<or> budget (interfere others s) = budget s")
    case True
    then show ?thesis by (auto simp: cmpxchg_def Let_def)
  next
    case False
    with Cons.prems have "[] \<in> set sched"
      by (auto simp: interfere_Nil)
    from Cons.IH [OF this] False show ?thesis
      by (simp add: cmpxchg_def Let_def)
  qed
qed

lemma claim_for_alloc_not_exhausted:
  assumes "[] \<in> set sched"
  shows "claim_for_alloc g words force sched s \<noteq> Inl Schedule_exhausted"
proof (cases "double_to_intptr_t (size_t_to_double words * tax_rate s)")
  case (Inl e)
  then have "e = Conversion_undefined"
    by (simp add: double_to_intptr_t_def Let_def split: if_splits)
  with Inl show ?thesis
    by (simp add: claim_for_alloc_def)
next
  case (Inr t)
  with claim_loop_returns [OF assms, of "MAX2_intptr_t 1 t" s] show ?thesis
    by (auto simp: claim_for_alloc_def)
qed

lemma pace_loop_not_exhausted:
  assumes "\<forall>t \<in> set ticks. [] \<in> set (claim_sched t)"
    and "\<exists>t \<in> set ticks. \<exists>ms.
           double_to_size_t ((elapsedTime t - start) * 1000) = Inr ms \<and> max_wait_ms < ms"
  shows "pace_loop add g words max_wait_ms start ticks s \<noteq> Inl Schedule_exhausted"
  using assms
proof (induction ticks arbitrary: s)
  case Nil
  then show ?case by simp
next
  case (Cons t ticks)
  let ?s1 = "interfere (during_sleep t) s"
  from Cons.prems(1) have fair: "[] \<in> set (claim_sched t)" by simp
  show ?case
  proof (cases "double_to_size_t ((elapsedTime t - start) * 1000)")
    case (Inl e)
    then have "e = Conversion_undefined"
      by (simp add: double_to_size_t_def Let_def split: if_splits)
    with Inl show ?thesis by (simp add: Let_def)
  next
    case (Inr ms)
    show ?thesis
    proof (cases "max_wait_ms < ms")
      case True
      with Inr claim_for_alloc_not_exhausted [OF fair, of g words True
          "?s1\<lparr>delays := add ms (delays ?s1)\<rparr>"]
      show ?thesis
        by (auto simp: Let_def split: sum.splits)
    next
      case False
      with Inr Cons.prems(2) have later: "\<exists>t \<in> set ticks. \<exists>ms.
           double_to_size_t ((elapsedTime t - start) * 1000) = Inr ms \<and> max_wait_ms < ms"
        by auto
      from Cons.prems(1) have "\<forall>t \<in> set ticks. [] \<in> set (claim_sched t)" by simp
      from Cons.IH [OF this later] Inr False
        claim_for_alloc_not_exhausted [OF fair, of g words False ?s1]
      show ?thesis
        by (auto simp: Let_def split: sum.splits)
    qed
  qed
qed

lemma pace_for_alloc_not_exhausted:
  assumes "[] \<in> set fast_sched"
    and "\<forall>t \<in> set ticks. [] \<in> set (claim_sched t)"
    and "\<exists>t \<in> set ticks. \<exists>ms.
           double_to_size_t ((elapsedTime t - start) * 1000) = Inr ms
           \<and> ShenandoahPacingMaxDelay g < ms"
  shows "pace_for_alloc add g words fast_sched start ticks s \<noteq> Inl Schedule_exhausted"
  using claim_for_alloc_not_exhausted [OF assms(1), of g words False s]
    pace_loop_not_exhausted [OF assms(2,3), of add g words]
  by (auto simp: pace_for_alloc_def split: sum.splits)

lemmas evaluate =
  pace_for_alloc_def claim_for_alloc_def double_to_intptr_t_def double_to_size_t_def
  truncation_def size_t_to_double_def MAX2_intptr_t_def cmpxchg_def interfere_def Let_def
  word_sless_alt

text \<open>
  Three runs at tax rate 1 and a limit of 10 ms, the clock reading 5 s when the wait
  starts: a claim the budget covers; a claim of 1000 words against 500 that nothing
  replenishes before the reading of 5.012 s; the same claim after another thread has
  stored a budget of 3000 during the second sleep.
\<close>

lemma example_fast_path:
  "pace_for_alloc (#) 
     \<lparr>ShenandoahPacing = True, ShenandoahPacingCycleSlack = 10,
        ShenandoahPacingIdleSlack = 1, ShenandoahPacingMaxDelay = 10, LogHeapWordSize = 3\<rparr>
     1000 [[]] 5 [] \<lparr>budget = 2000, tax_rate = 1, delays = []\<rparr>
   = Inr \<lparr>budget = 1000, tax_rate = 1, delays = []\<rparr>"
  by (simp add: evaluate)

lemma example_past_deadline:
  "pace_for_alloc (#) 
     \<lparr>ShenandoahPacing = True, ShenandoahPacingCycleSlack = 10,
        ShenandoahPacingIdleSlack = 1, ShenandoahPacingMaxDelay = 10, LogHeapWordSize = 3\<rparr>
     1000 [[]] 5
     [\<lparr>during_sleep = [], elapsedTime = 5.001, claim_sched = [[]]\<rparr>,
      \<lparr>during_sleep = [], elapsedTime = 5.012, claim_sched = [[]]\<rparr>]
     \<lparr>budget = 500, tax_rate = 1, delays = []\<rparr>
   = Inr \<lparr>budget = 500, tax_rate = 1, delays = [12]\<rparr>"
  by (simp add: evaluate)

lemma example_replenished:
  "pace_for_alloc (#) 
     \<lparr>ShenandoahPacing = True, ShenandoahPacingCycleSlack = 10,
        ShenandoahPacingIdleSlack = 1, ShenandoahPacingMaxDelay = 10, LogHeapWordSize = 3\<rparr>
     1000 [[]] 5
     [\<lparr>during_sleep = [], elapsedTime = 5.001, claim_sched = [[]]\<rparr>,
      \<lparr>during_sleep = [Store_budget 3000], elapsedTime = 5.0025, claim_sched = [[]]\<rparr>]
     \<lparr>budget = 500, tax_rate = 1, delays = []\<rparr>
   = Inr \<lparr>budget = 2000, tax_rate = 1, delays = [2]\<rparr>"
  by (simp add: evaluate)

lemma example_claims:
  "claim_for_alloc 
     \<lparr>ShenandoahPacing = True, ShenandoahPacingCycleSlack = 10,
        ShenandoahPacingIdleSlack = 1, ShenandoahPacingMaxDelay = 10, LogHeapWordSize = 3\<rparr>
     1000 False [[]] \<lparr>budget = 2000, tax_rate = 1, delays = []\<rparr>
   = Inr (True, \<lparr>budget = 1000, tax_rate = 1, delays = []\<rparr>)"
  "claim_for_alloc 
     \<lparr>ShenandoahPacing = True, ShenandoahPacingCycleSlack = 10,
        ShenandoahPacingIdleSlack = 1, ShenandoahPacingMaxDelay = 10, LogHeapWordSize = 3\<rparr>
     1000 False [[]] \<lparr>budget = 500, tax_rate = 1, delays = []\<rparr>
   = Inr (False, \<lparr>budget = 500, tax_rate = 1, delays = []\<rparr>)"
  "claim_for_alloc 
     \<lparr>ShenandoahPacing = True, ShenandoahPacingCycleSlack = 10,
        ShenandoahPacingIdleSlack = 1, ShenandoahPacingMaxDelay = 10, LogHeapWordSize = 3\<rparr>
     1000 True [[]] \<lparr>budget = 500, tax_rate = 1, delays = []\<rparr>
   = Inr (False, \<lparr>budget = 500, tax_rate = 1, delays = []\<rparr>)"
  by (simp_all add: evaluate)

subsection \<open>Claiming budget\<close>

text \<open>
  C1. A claim with \<open>force = false\<close> whose first round no other thread disturbs
  returns false and leaves the pacer as it is exactly when the budget it loads is less
  than the cost \<open>MAX2(1, words * tax_rate)\<close>; otherwise it returns true and the budget
  is the loaded one less the cost, with no wrap-around. Under any schedule of the other
  threads, a claim that returns false has last loaded a budget below the cost, and one
  that returns true has installed a loaded budget, not below the cost, less the cost.
  At the example: 1000 words against budget 500 at tax rate 1 fail without a change;
  once \<open>restart_with\<close> has installed 2000 the same claim succeeds and leaves 1000.
\<close>

theorem claim_for_alloc_unforced:
  assumes "ShenandoahPacing g"
    and "double_to_intptr_t (size_t_to_double words * tax_rate s) = Inr t"
    and "cost = MAX2_intptr_t 1 t"
  shows "claim_for_alloc g words False ([] # sched) s
           = Inr (if budget s <s cost then (False, s)
                  else (True, s\<lparr>budget := budget s - cost\<rparr>))
         \<and> (\<not> budget s <s cost \<longrightarrow> sint (budget s - cost) = sint (budget s) - sint cost)
         \<and> (\<forall>disturbed claimed s'.
               claim_for_alloc g words False disturbed s = Inr (claimed, s') \<longrightarrow>
               (if claimed then \<exists>cur. \<not> cur <s cost \<and> budget s' = cur - cost
                else budget s' <s cost))"
proof -
  have "1 <=s cost"
    using assms(3) by (simp add: MAX2_intptr_t_ge_1)
  then have exact:
    "\<not> budget s <s cost \<longrightarrow> sint (budget s - cost) = sint (budget s) - sint cost"
    by (simp add: sint_diff_no_wrap)
  have undisturbed: "claim_for_alloc g words False ([] # sched) s
      = Inr (if budget s <s cost then (False, s) else (True, s\<lparr>budget := budget s - cost\<rparr>))"
    using assms by (simp add: claim_for_alloc_def claim_loop_undisturbed del: claim_loop.simps)
  have "if claimed then \<exists>cur. \<not> cur <s cost \<and> budget s' = cur - cost
        else budget s' <s cost"
    if "claim_for_alloc g words False disturbed s = Inr (claimed, s')"
    for disturbed claimed s'
  proof -
    from that assms have "claim_loop cost disturbed s = Inr (claimed, s')"
      by (simp add: claim_for_alloc_def)
    then show ?thesis by (rule claim_loop_observed)
  qed
  with exact undisturbed show ?thesis by blast
qed

theorem claim_for_alloc_unforced_witness:
  "claim_for_alloc
     \<lparr>ShenandoahPacing = True, ShenandoahPacingCycleSlack = 10,
        ShenandoahPacingIdleSlack = 1, ShenandoahPacingMaxDelay = 10, LogHeapWordSize = 3\<rparr>
     1000 False [[]] \<lparr>budget = 500, tax_rate = 1, delays = ()\<rparr>
     = Inr (False, \<lparr>budget = 500, tax_rate = 1, delays = ()\<rparr>)
   \<and> restart_with
     \<lparr>ShenandoahPacing = True, ShenandoahPacingCycleSlack = 10,
        ShenandoahPacingIdleSlack = 1, ShenandoahPacingMaxDelay = 10, LogHeapWordSize = 3\<rparr>
     16000 1 [[]] \<lparr>budget = 500, tax_rate = 1, delays = ()\<rparr>
     = Inr \<lparr>budget = 2000, tax_rate = 1, delays = ()\<rparr>
   \<and> claim_for_alloc
     \<lparr>ShenandoahPacing = True, ShenandoahPacingCycleSlack = 10,
        ShenandoahPacingIdleSlack = 1, ShenandoahPacingMaxDelay = 10, LogHeapWordSize = 3\<rparr>
     1000 False [[]] \<lparr>budget = 2000, tax_rate = 1, delays = ()\<rparr>
     = Inr (True, \<lparr>budget = 1000, tax_rate = 1, delays = ()\<rparr>)
   \<and> sint (2000 - 1000 :: 64 word) = 1000"
  (is "?fails \<and> ?replaced \<and> ?succeeds \<and> ?exact")
proof -
  let ?g = "\<lparr>ShenandoahPacing = True, ShenandoahPacingCycleSlack = 10,
    ShenandoahPacingIdleSlack = 1, ShenandoahPacingMaxDelay = 10, LogHeapWordSize = 3\<rparr>"
  let ?poor = "\<lparr>budget = 500, tax_rate = 1, delays = ()\<rparr>"
  let ?rich = "\<lparr>budget = 2000, tax_rate = 1, delays = ()\<rparr>"
  have pacing: "ShenandoahPacing ?g" by simp
  have poor: "double_to_intptr_t (size_t_to_double 1000 * tax_rate ?poor) = Inr 1000"
    by (simp add: double_to_intptr_t_def size_t_to_double_def truncation_def)
  have rich: "double_to_intptr_t (size_t_to_double 1000 * tax_rate ?rich) = Inr 1000"
    by (simp add: double_to_intptr_t_def size_t_to_double_def truncation_def)
  have cost: "(1000 :: 64 word) = MAX2_intptr_t 1 1000"
    by (simp add: MAX2_intptr_t_def word_sless_alt)
  have replaced: "restart_with ?g 16000 1 [[]] ?poor = Inr ?rich"
    by (simp add: restart_with_def double_to_size_t_def truncation_def jlong_to_double_def
        cmpxchg_def interfere_def drop_bit_eq_div)
  from claim_for_alloc_unforced [OF pacing poor cost, of "[]", THEN conjunct1]
  have ?fails by (simp add: word_sless_alt)
  moreover from claim_for_alloc_unforced [OF pacing rich cost, of "[]", THEN conjunct1]
  have ?succeeds by (simp add: word_sless_alt)
  moreover from claim_for_alloc_unforced [OF pacing rich cost, of "[]", THEN conjunct2,
      THEN conjunct1]
  have ?exact by (simp add: word_sless_alt)
  ultimately show ?thesis
    using replaced by (intro conjI)
qed

text \<open>
  C3. The \<open>force\<close> argument of \<open>claim_for_alloc\<close> has no effect: with \<open>true\<close> and
  with \<open>false\<close> the call returns the same boolean and leaves the same pacer, whatever
  the words, the pacer and the schedule of the other threads.
\<close>

theorem claim_for_alloc_force_ignored:
  "claim_for_alloc g words True sched s = claim_for_alloc g words False sched s"
  by (simp add: claim_for_alloc_def)

text \<open>
  C9. The cost that \<open>claim_for_alloc\<close> charges is \<open>max(1, words * tax_rate)\<close> with the
  product truncated, so it is at least 1, also for 0 words and for a product below 1:
  a claim the budget covers returns true and leaves the budget less exactly that cost,
  under any schedule a claim that returns true has taken exactly that cost off a budget
  it loaded, and a claim the budget does not cover returns false and charges nothing.
  With a budget of zero or less a claim with \<open>force = false\<close> therefore fails in its
  first round and leaves the pacer as it is, so the same holds of every later claim
  until another thread stores a new budget.
\<close>

theorem claim_for_alloc_cost_at_least_one:
  assumes "ShenandoahPacing g"
    and "double_to_intptr_t (size_t_to_double words * tax_rate s) = Inr t"
    and "cost = MAX2_intptr_t 1 t"
  shows "sint cost = max 1 (truncation (real (unat words) * tax_rate s))
         \<and> 1 \<le> sint cost
         \<and> (\<not> budget s <s cost \<longrightarrow>
              claim_for_alloc g words False ([] # sched) s
                = Inr (True, s\<lparr>budget := budget s - cost\<rparr>)
              \<and> sint (budget s - cost) = sint (budget s) - sint cost)
         \<and> (\<forall>disturbed s'.
               claim_for_alloc g words False disturbed s = Inr (True, s') \<longrightarrow>
               (\<exists>cur. \<not> cur <s cost \<and> budget s' = cur - cost
                      \<and> sint (budget s') = sint cur - sint cost))
         \<and> (budget s <s cost \<longrightarrow>
              claim_for_alloc g words False (others # sched) s = Inr (False, s))
         \<and> (budget s <=s 0 \<longrightarrow>
              claim_for_alloc g words False (others # sched) s = Inr (False, s))"
proof -
  have c: "sint cost = max 1 (truncation (real (unat words) * tax_rate s))"
    using assms(2,3) sint_double_to_intptr_t [OF assms(2)]
    by (simp add: sint_MAX2_intptr_t size_t_to_double_def)
  then have one: "1 \<le> sint cost" by simp
  then have one': "1 <=s cost" by (simp add: word_sle_eq)
  have loop: "claim_for_alloc g words False disturbed s = claim_loop cost disturbed s"
    for disturbed
    using assms by (simp add: claim_for_alloc_def)
  have covered: "claim_for_alloc g words False ([] # sched) s
        = Inr (True, s\<lparr>budget := budget s - cost\<rparr>)
      \<and> sint (budget s - cost) = sint (budget s) - sint cost"
    if "\<not> budget s <s cost"
    using that one' by (simp add: loop claim_loop_undisturbed sint_diff_no_wrap
        del: claim_loop.simps)
  have charged: "\<exists>cur. \<not> cur <s cost \<and> budget s' = cur - cost
      \<and> sint (budget s') = sint cur - sint cost"
    if "claim_for_alloc g words False disturbed s = Inr (True, s')" for disturbed s'
  proof -
    from that have "claim_loop cost disturbed s = Inr (True, s')"
      by (simp only: loop)
    from claim_loop_observed [OF this] obtain cur where
      cur: "\<not> cur <s cost" "budget s' = cur - cost"
      by auto
    with one' have "sint (budget s') = sint cur - sint cost"
      by (simp add: sint_diff_no_wrap)
    with cur show ?thesis by blast
  qed
  have refused: "claim_for_alloc g words False (others # sched) s = Inr (False, s)"
    if "budget s <s cost"
    using claim_loop_depleted [OF that] by (simp only: loop)
  have depleted: "claim_for_alloc g words False (others # sched) s = Inr (False, s)"
    if "budget s <=s 0"
  proof -
    from that one have "budget s <s cost"
      by (simp add: word_sle_eq word_sless_alt)
    then show ?thesis by (rule refused)
  qed
  from c one covered charged refused depleted show ?thesis by blast
qed

theorem claim_for_alloc_cost_at_least_one_witness:
  "claim_for_alloc 
      \<lparr>ShenandoahPacing = True, ShenandoahPacingCycleSlack = 10,
        ShenandoahPacingIdleSlack = 1, ShenandoahPacingMaxDelay = 10, LogHeapWordSize = 3\<rparr>
    
     0 False [[Store_tax_rate 2]] \<lparr>budget = 0, tax_rate = 33, delays = ()\<rparr>
     = Inr (False, \<lparr>budget = 0, tax_rate = 33, delays = ()\<rparr>)
   \<and> claim_for_alloc 
      \<lparr>ShenandoahPacing = True, ShenandoahPacingCycleSlack = 10,
        ShenandoahPacingIdleSlack = 1, ShenandoahPacingMaxDelay = 10, LogHeapWordSize = 3\<rparr>
    
     0 False [[Store_tax_rate 2]] \<lparr>budget = - 3, tax_rate = 33, delays = ()\<rparr>
     = Inr (False, \<lparr>budget = - 3, tax_rate = 33, delays = ()\<rparr>)
   \<and> claim_for_alloc 
      \<lparr>ShenandoahPacing = True, ShenandoahPacingCycleSlack = 10,
        ShenandoahPacingIdleSlack = 1, ShenandoahPacingMaxDelay = 10, LogHeapWordSize = 3\<rparr>
    
     0 False [[]] \<lparr>budget = 5, tax_rate = 33, delays = ()\<rparr>
     = Inr (True, \<lparr>budget = 4, tax_rate = 33, delays = ()\<rparr>)
   \<and> claim_for_alloc 
      \<lparr>ShenandoahPacing = True, ShenandoahPacingCycleSlack = 10,
        ShenandoahPacingIdleSlack = 1, ShenandoahPacingMaxDelay = 10, LogHeapWordSize = 3\<rparr>
    
     1 False [[]] \<lparr>budget = 5, tax_rate = 1 / 2, delays = ()\<rparr>
     = Inr (True, \<lparr>budget = 4, tax_rate = 1 / 2, delays = ()\<rparr>)
   \<and> claim_for_alloc 
      \<lparr>ShenandoahPacing = True, ShenandoahPacingCycleSlack = 10,
        ShenandoahPacingIdleSlack = 1, ShenandoahPacingMaxDelay = 10, LogHeapWordSize = 3\<rparr>
    
     1000 False [[]] \<lparr>budget = 5000, tax_rate = 33 / 10, delays = ()\<rparr>
     = Inr (True, \<lparr>budget = 1700, tax_rate = 33 / 10, delays = ()\<rparr>)
   \<and> claim_for_alloc 
      \<lparr>ShenandoahPacing = True, ShenandoahPacingCycleSlack = 10,
        ShenandoahPacingIdleSlack = 1, ShenandoahPacingMaxDelay = 10, LogHeapWordSize = 3\<rparr>
    
     1000 False [[Store_budget 9]] \<lparr>budget = 3299, tax_rate = 33 / 10, delays = ()\<rparr>
     = Inr (False, \<lparr>budget = 3299, tax_rate = 33 / 10, delays = ()\<rparr>)
   \<and> sint (MAX2_intptr_t 1 0) = 1
   \<and> sint (MAX2_intptr_t 1 3300) = max 1 (truncation (real (unat (1000 :: 64 word)) * (33 / 10)))"
  (is "?zero \<and> ?negative \<and> ?no_words \<and> ?fraction \<and> ?taxed \<and> ?short \<and> ?one \<and> ?cost")
proof -
  let ?g = "\<lparr>ShenandoahPacing = True, ShenandoahPacingCycleSlack = 10,
    ShenandoahPacingIdleSlack = 1, ShenandoahPacingMaxDelay = 10, LogHeapWordSize = 3\<rparr>"
  have pacing: "ShenandoahPacing ?g" by simp
  have tax0: "double_to_intptr_t (size_t_to_double 0 * tax_rate \<lparr>budget = b, tax_rate = 33, delays = ()\<rparr>)
      = Inr 0" for b
    by (simp add: double_to_intptr_t_def size_t_to_double_def truncation_def)
  have tax_half: "double_to_intptr_t
      (size_t_to_double 1 * tax_rate \<lparr>budget = 5, tax_rate = 1 / 2, delays = ()\<rparr>) = Inr 0"
    by (simp add: double_to_intptr_t_def size_t_to_double_def truncation_def)
  have tax_3300: "double_to_intptr_t
      (size_t_to_double 1000 * tax_rate \<lparr>budget = b, tax_rate = 33 / 10, delays = ()\<rparr>)
      = Inr 3300" for b
    by (simp add: double_to_intptr_t_def size_t_to_double_def truncation_def)
  have cost1: "(1 :: 64 word) = MAX2_intptr_t 1 0"
    by (simp add: MAX2_intptr_t_def word_sless_alt)
  have cost3300: "(3300 :: 64 word) = MAX2_intptr_t 1 3300"
    by (simp add: MAX2_intptr_t_def word_sless_alt)
  note zero = claim_for_alloc_cost_at_least_one [OF pacing tax0 cost1,
      where b1 = 0 and others = "[Store_tax_rate 2]" and sched = "[]"]
  note negative = claim_for_alloc_cost_at_least_one [OF pacing tax0 cost1,
      where b1 = "- 3" and others = "[Store_tax_rate 2]" and sched = "[]"]
  note no_words = claim_for_alloc_cost_at_least_one [OF pacing tax0 cost1,
      where b1 = 5 and sched = "[]"]
  note fraction = claim_for_alloc_cost_at_least_one [OF pacing tax_half cost1,
      where sched = "[]"]
  note taxed = claim_for_alloc_cost_at_least_one [OF pacing tax_3300 cost3300,
      where b1 = 5000 and sched = "[]"]
  note short = claim_for_alloc_cost_at_least_one [OF pacing tax_3300 cost3300,
      where b1 = 3299 and others = "[Store_budget 9]" and sched = "[]"]
  have ?zero
    using zero [THEN conjunct2, THEN conjunct2, THEN conjunct2, THEN conjunct2, THEN conjunct2]
    by (simp add: word_sle_eq)
  moreover have ?negative
    using negative [THEN conjunct2, THEN conjunct2, THEN conjunct2, THEN conjunct2,
        THEN conjunct2]
    by (simp add: word_sle_eq)
  moreover have ?no_words
    using no_words [THEN conjunct2, THEN conjunct2, THEN conjunct1]
    by (simp add: word_sless_alt)
  moreover have ?fraction
    using fraction [THEN conjunct2, THEN conjunct2, THEN conjunct1]
    by (simp add: word_sless_alt)
  moreover have ?taxed
    using taxed [THEN conjunct2, THEN conjunct2, THEN conjunct1]
    by (simp add: word_sless_alt)
  moreover have ?short
    using short [THEN conjunct2, THEN conjunct2, THEN conjunct2, THEN conjunct2, THEN conjunct1]
    by (simp add: word_sless_alt)
  moreover have ?one
    using zero [THEN conjunct1] cost1 by (simp add: truncation_def)
  moreover have ?cost
    using taxed [THEN conjunct1] by (simp only: cost3300 [symmetric] pacer.select_convs)
  ultimately show ?thesis by (intro conjI)
qed

subsection \<open>Replacing the budget\<close>

text \<open>
  C8. \<open>restart_with\<close> is a plain store: whatever the budget before and whatever other
  threads store while its loop runs, as long as one round goes undisturbed, the pacer
  afterwards holds the budget computed from the arguments and the given tax rate, and
  is otherwise as before.
\<close>

theorem restart_with_is_store:
  assumes "double_to_size_t (jlong_to_double non_taxable_bytes * rate) = Inr bytes"
    and "[] \<in> set sched"
  shows "restart_with g non_taxable_bytes rate sched s
           = Inr (s\<lparr>budget := drop_bit (LogHeapWordSize g) bytes, tax_rate := rate\<rparr>)"
proof -
  from restart_loop_returns [OF assms(2)] obtain s1 where
    s1: "restart_loop (drop_bit (LogHeapWordSize g) bytes) sched s = Inr s1"
    by blast
  from restart_loop_result [OF s1] have "s1\<lparr>tax_rate := rate\<rparr>
      = s\<lparr>budget := drop_bit (LogHeapWordSize g) bytes, tax_rate := rate\<rparr>"
    by simp
  with s1 assms(1) show ?thesis
    by (simp add: restart_with_def)
qed

theorem restart_with_is_store_witness:
  "restart_with
     \<lparr>ShenandoahPacing = True, ShenandoahPacingCycleSlack = 10,
        ShenandoahPacingIdleSlack = 1, ShenandoahPacingMaxDelay = 10, LogHeapWordSize = 3\<rparr>
     16000 1 [[Store_budget 400], [Store_budget (- 600)], []]
     \<lparr>budget = 500, tax_rate = 33, delays = ()\<rparr>
     = Inr \<lparr>budget = 2000, tax_rate = 1, delays = ()\<rparr>"
proof -
  have bytes: "double_to_size_t (jlong_to_double 16000 * 1) = Inr 16000"
    by (simp add: double_to_size_t_def truncation_def jlong_to_double_def)
  have quiet: "[] \<in> set [[Store_budget 400], [Store_budget (- 600)], []]" by simp
  from restart_with_is_store [OF bytes quiet,
      where g = "\<lparr>ShenandoahPacing = True, ShenandoahPacingCycleSlack = 10,
        ShenandoahPacingIdleSlack = 1, ShenandoahPacingMaxDelay = 10, LogHeapWordSize = 3\<rparr>"
      and s = "\<lparr>budget = 500, tax_rate = 33, delays = ()\<rparr>"]
  show ?thesis by (simp add: drop_bit_eq_div)
qed

subsection \<open>The phase setups\<close>

text \<open>
  C5. Whenever \<open>setup_for_mark\<close>, \<open>setup_for_evac\<close> or \<open>setup_for_updaterefs\<close> installs
  a tax rate, which they do only with \<open>taxable\<close> other than 0, that rate is at least 1.1;
  the rate that \<open>setup_for_idle\<close> installs is exactly 1.
\<close>

theorem phase_tax_rates:
  "(setup_for_mark g h sched s = Inr s_mark \<longrightarrow> 1.1 \<le> tax_rate s_mark)
   \<and> (setup_for_evac g h sched s = Inr s_evac \<longrightarrow> 1.1 \<le> tax_rate s_evac)
   \<and> (setup_for_updaterefs g h sched s = Inr s_updaterefs \<longrightarrow> 1.1 \<le> tax_rate s_updaterefs)
   \<and> (setup_for_idle g h sched s = Inr s_idle \<longrightarrow> tax_rate s_idle = 1)"
proof -
  have floor: "1.1 \<le> tax_rate s'"
    if "\<exists>rate. 1.1 \<le> rate \<and> restart_with g allowance rate sched s = Inr s'"
    for allowance s'
  proof -
    from that obtain rate where "1.1 \<le> rate"
      and "restart_with g allowance rate sched s = Inr s'"
      by blast
    from this(1) restart_with_installs(1) [OF this(2)] show ?thesis
      by (simp only:)
  qed
  have "1.1 \<le> tax_rate s_mark" if "setup_for_mark g h sched s = Inr s_mark"
    using setup_for_mark_restarts [OF that] by (rule floor)
  moreover have "1.1 \<le> tax_rate s_evac" if "setup_for_evac g h sched s = Inr s_evac"
    using setup_for_evac_restarts [OF that] by (rule floor)
  moreover have "1.1 \<le> tax_rate s_updaterefs"
    if "setup_for_updaterefs g h sched s = Inr s_updaterefs"
    using setup_for_updaterefs_restarts [OF that] by (rule floor)
  moreover have "tax_rate s_idle = 1" if "setup_for_idle g h sched s = Inr s_idle"
    using setup_for_idle_restarts [OF that] by (rule restart_with_installs(1))
  ultimately show ?thesis by blast
qed

theorem phase_tax_rates_witness:
  "setup_for_mark
     \<lparr>ShenandoahPacing = True, ShenandoahPacingCycleSlack = 10,
        ShenandoahPacingIdleSlack = 1, ShenandoahPacingMaxDelay = 10, LogHeapWordSize = 3\<rparr>
     \<lparr>heap_used = 94371840, free_set_available = 10485760,
        collection_set_live_data = 9437184, heap_capacity = 1048576000\<rparr>
     [[]] \<lparr>budget = 500, tax_rate = 1, delays = ()\<rparr>
     = Inr \<lparr>budget = 4325376, tax_rate = 33, delays = ()\<rparr>
   \<and> 1.1 \<le> tax_rate \<lparr>budget = 4325376, tax_rate = 33, delays = ()\<rparr>
   \<and> setup_for_evac
     \<lparr>ShenandoahPacing = True, ShenandoahPacingCycleSlack = 10,
        ShenandoahPacingIdleSlack = 1, ShenandoahPacingMaxDelay = 10, LogHeapWordSize = 3\<rparr>
     \<lparr>heap_used = 94371840, free_set_available = 10485760,
        collection_set_live_data = 9437184, heap_capacity = 1048576000\<rparr>
     [[]] \<lparr>budget = 500, tax_rate = 1, delays = ()\<rparr>
     = Inr \<lparr>budget = 288358, tax_rate = 2.2, delays = ()\<rparr>
   \<and> 1.1 \<le> tax_rate \<lparr>budget = 288358, tax_rate = 2.2, delays = ()\<rparr>
   \<and> setup_for_updaterefs
     \<lparr>ShenandoahPacing = True, ShenandoahPacingCycleSlack = 10,
        ShenandoahPacingIdleSlack = 1, ShenandoahPacingMaxDelay = 10, LogHeapWordSize = 3\<rparr>
     \<lparr>heap_used = 94371840, free_set_available = 10485760,
        collection_set_live_data = 9437184, heap_capacity = 1048576000\<rparr>
     [[]] \<lparr>budget = 500, tax_rate = 1, delays = ()\<rparr>
     = Inr \<lparr>budget = 1441792, tax_rate = 11, delays = ()\<rparr>
   \<and> 1.1 \<le> tax_rate \<lparr>budget = 1441792, tax_rate = 11, delays = ()\<rparr>
   \<and> setup_for_idle
     \<lparr>ShenandoahPacing = True, ShenandoahPacingCycleSlack = 10,
        ShenandoahPacingIdleSlack = 1, ShenandoahPacingMaxDelay = 10, LogHeapWordSize = 3\<rparr>
     \<lparr>heap_used = 94371840, free_set_available = 10485760,
        collection_set_live_data = 9437184, heap_capacity = 1048576000\<rparr>
     [[]] \<lparr>budget = 500, tax_rate = 1, delays = ()\<rparr>
     = Inr \<lparr>budget = 1310720, tax_rate = 1, delays = ()\<rparr>
   \<and> tax_rate \<lparr>budget = 1310720, tax_rate = 1, delays = ()\<rparr> = 1"
  using phase_tax_rates [of
      "\<lparr>ShenandoahPacing = True, ShenandoahPacingCycleSlack = 10,
        ShenandoahPacingIdleSlack = 1, ShenandoahPacingMaxDelay = 10, LogHeapWordSize = 3\<rparr>"
      "\<lparr>heap_used = 94371840, free_set_available = 10485760,
        collection_set_live_data = 9437184, heap_capacity = 1048576000\<rparr>"
      "[[]]" "\<lparr>budget = 500, tax_rate = 1, delays = ()\<rparr>"
      "\<lparr>budget = 4325376, tax_rate = 33, delays = ()\<rparr>" "\<lparr>budget = 288358, tax_rate = 2.2, delays = ()\<rparr>"
      "\<lparr>budget = 1441792, tax_rate = 11, delays = ()\<rparr>" "\<lparr>budget = 1310720, tax_rate = 1, delays = ()\<rparr>"]
    example_mark example_evac example_updaterefs example_idle
  by blast

text \<open>
  C6. \<open>setup_for_mark\<close> computes \<open>non_taxable = free * ShenandoahPacingCycleSlack / 100\<close>
  and \<open>taxable = free - non_taxable\<close> in \<open>size_t\<close> arithmetic and, for \<open>taxable\<close> other
  than 0, the tax \<open>max(1, 3 * used / taxable) * 1.1\<close>, and restarts the pacer with them. With
  90 MB used, 10 MB free and a slack of 10 percent that is 1 MB, 9 MB and a tax of 33.
\<close>

theorem setup_for_mark_formula:
  assumes "ShenandoahPacing g"
    and "non_taxable = free_set_available h * ShenandoahPacingCycleSlack g div 100"
    and "taxable = free_set_available h - non_taxable"
    and "taxable \<noteq> 0"
    and "tax = max 1 (3 * real (unat (heap_used h)) / real (unat taxable)) * 1.1"
  shows "setup_for_mark g h sched s = restart_with g non_taxable tax sched s"
proof -
  have "1.0 * size_t_to_double (heap_used h) / size_t_to_double taxable * 3
      = 3 * real (unat (heap_used h)) / real (unat taxable)"
    by (simp add: size_t_to_double_def)
  then have "tax = MAX2_double 1
      (1.0 * size_t_to_double (heap_used h) / size_t_to_double taxable * 3) * 1.1"
    by (simp only: assms(5) MAX2_double_max)
  with assms(1,4) show ?thesis
    by (simp only: setup_for_mark_def Let_def assms(2) [symmetric] assms(3) [symmetric]
        if_False if_True not_True_eq_False)
qed

theorem setup_for_mark_formula_witness:
  "(1048576 :: 64 word) = 10485760 * 10 div 100
   \<and> (9437184 :: 64 word) = 10485760 - 1048576
   \<and> (33 :: real) = max 1 (3 * real (unat (94371840 :: 64 word))
                            / real (unat (9437184 :: 64 word))) * 1.1
   \<and> setup_for_mark
       \<lparr>ShenandoahPacing = True, ShenandoahPacingCycleSlack = 10,
          ShenandoahPacingIdleSlack = 1, ShenandoahPacingMaxDelay = 10, LogHeapWordSize = 3\<rparr>
       \<lparr>heap_used = 94371840, free_set_available = 10485760,
          collection_set_live_data = 9437184, heap_capacity = 1048576000\<rparr>
       [[]] \<lparr>budget = 500, tax_rate = 1, delays = ()\<rparr>
     = Inr \<lparr>budget = 4325376, tax_rate = 33, delays = ()\<rparr>"
proof -
  let ?g = "\<lparr>ShenandoahPacing = True, ShenandoahPacingCycleSlack = 10,
    ShenandoahPacingIdleSlack = 1, ShenandoahPacingMaxDelay = 10, LogHeapWordSize = 3\<rparr>"
  let ?h = "\<lparr>heap_used = 94371840, free_set_available = 10485760,
    collection_set_live_data = 9437184, heap_capacity = 1048576000\<rparr>"
  let ?s = "\<lparr>budget = 500, tax_rate = 1, delays = ()\<rparr>"
  have pacing: "ShenandoahPacing ?g" by simp
  have non_taxable: "(1048576 :: 64 word)
      = free_set_available ?h * ShenandoahPacingCycleSlack ?g div 100"
    by simp
  have taxable: "(9437184 :: 64 word) = free_set_available ?h - 1048576" by simp
  have positive: "(9437184 :: 64 word) \<noteq> 0" by simp
  have tax: "(33 :: real)
      = max 1 (3 * real (unat (heap_used ?h)) / real (unat (9437184 :: 64 word))) * 1.1"
    by simp
  have restarted: "restart_with ?g 1048576 33 [[]] ?s
      = Inr \<lparr>budget = 4325376, tax_rate = 33, delays = ()\<rparr>"
    by (simp add: restart_with_def double_to_size_t_def truncation_def jlong_to_double_def
        cmpxchg_def interfere_def drop_bit_eq_div)
  have c1: "(1048576 :: 64 word) = 10485760 * 10 div 100" by simp
  have c2: "(9437184 :: 64 word) = 10485760 - 1048576" by simp
  have c3: "(33 :: real) = max 1 (3 * real (unat (94371840 :: 64 word))
                            / real (unat (9437184 :: 64 word))) * 1.1"
    by simp
  have c4: "setup_for_mark ?g ?h [[]] ?s = Inr \<lparr>budget = 4325376, tax_rate = 33, delays = ()\<rparr>"
    using setup_for_mark_formula [OF pacing non_taxable taxable positive tax, of "[[]]" ?s]
      restarted
    by (simp only:)
  from c1 c2 c3 c4 show ?thesis by (intro conjI)
qed

text \<open>
  C7. The budget a phase setup installs is its allowance (the non-taxable bytes, or for
  idle the initial bytes) times the tax rate it installs, truncated to a whole number of
  bytes and shifted right by \<open>LogHeapWordSize\<close>. Idle setup with a capacity of 1000 MB and
  an idle slack of 1 percent installs the words of 10 MB at tax rate 1.
\<close>

theorem phase_budgets:
  "(setup_for_mark g h sched s = Inr s_mark \<longrightarrow>
      budget s_mark = drop_bit (LogHeapWordSize g) (word_of_int (truncation
        (jlong_to_double (free_set_available h * ShenandoahPacingCycleSlack g div 100)
           * tax_rate s_mark))))
   \<and> (setup_for_evac g h sched s = Inr s_evac \<longrightarrow>
      budget s_evac = drop_bit (LogHeapWordSize g) (word_of_int (truncation
        (jlong_to_double (free_set_available h * ShenandoahPacingCycleSlack g div 100)
           * tax_rate s_evac))))
   \<and> (setup_for_updaterefs g h sched s = Inr s_updaterefs \<longrightarrow>
      budget s_updaterefs = drop_bit (LogHeapWordSize g) (word_of_int (truncation
        (jlong_to_double (free_set_available h * ShenandoahPacingCycleSlack g div 100)
           * tax_rate s_updaterefs))))
   \<and> (setup_for_idle g h sched s = Inr s_idle \<longrightarrow>
      budget s_idle = drop_bit (LogHeapWordSize g) (word_of_int (truncation
        (jlong_to_double (heap_capacity h * ShenandoahPacingIdleSlack g div 100)
           * tax_rate s_idle)))
      \<and> tax_rate s_idle = 1)"
proof -
  have restarted: "budget s' = drop_bit (LogHeapWordSize g) (word_of_int (truncation
        (jlong_to_double allowance * tax_rate s')))"
    if "\<exists>rate. 1.1 \<le> rate \<and> restart_with g allowance rate sched s = Inr s'"
    for allowance s'
  proof -
    from that obtain rate where "restart_with g allowance rate sched s = Inr s'"
      by blast
    from restart_with_installs [OF this] show ?thesis
      by (simp only:)
  qed
  have mark: "budget s_mark = drop_bit (LogHeapWordSize g) (word_of_int (truncation
        (jlong_to_double (free_set_available h * ShenandoahPacingCycleSlack g div 100)
           * tax_rate s_mark)))" if "setup_for_mark g h sched s = Inr s_mark"
    using setup_for_mark_restarts [OF that] by (rule restarted)
  have evac: "budget s_evac = drop_bit (LogHeapWordSize g) (word_of_int (truncation
        (jlong_to_double (free_set_available h * ShenandoahPacingCycleSlack g div 100)
           * tax_rate s_evac)))" if "setup_for_evac g h sched s = Inr s_evac"
    using setup_for_evac_restarts [OF that] by (rule restarted)
  have updaterefs: "budget s_updaterefs = drop_bit (LogHeapWordSize g) (word_of_int (truncation
        (jlong_to_double (free_set_available h * ShenandoahPacingCycleSlack g div 100)
           * tax_rate s_updaterefs)))" if "setup_for_updaterefs g h sched s = Inr s_updaterefs"
    using setup_for_updaterefs_restarts [OF that] by (rule restarted)
  have idle: "budget s_idle = drop_bit (LogHeapWordSize g) (word_of_int (truncation
        (jlong_to_double (heap_capacity h * ShenandoahPacingIdleSlack g div 100)
           * tax_rate s_idle))) \<and> tax_rate s_idle = 1"
    if "setup_for_idle g h sched s = Inr s_idle"
    using restart_with_installs [OF setup_for_idle_restarts [OF that]] by simp
  from mark evac updaterefs idle show ?thesis by blast
qed

theorem phase_budgets_witness:
  "setup_for_idle 
      \<lparr>ShenandoahPacing = True, ShenandoahPacingCycleSlack = 10,
        ShenandoahPacingIdleSlack = 1, ShenandoahPacingMaxDelay = 10, LogHeapWordSize = 3\<rparr> 
      \<lparr>heap_used = 94371840, free_set_available = 10485760,
        collection_set_live_data = 9437184, heap_capacity = 1048576000\<rparr> [[]] \<lparr>budget = 500, tax_rate = 1, delays = ()\<rparr> = Inr \<lparr>budget = 1310720, tax_rate = 1, delays = ()\<rparr>
   \<and> budget \<lparr>budget = 1310720, tax_rate = 1, delays = ()\<rparr> = drop_bit (LogHeapWordSize 
      \<lparr>ShenandoahPacing = True, ShenandoahPacingCycleSlack = 10,
        ShenandoahPacingIdleSlack = 1, ShenandoahPacingMaxDelay = 10, LogHeapWordSize = 3\<rparr>) (word_of_int (truncation
        (jlong_to_double (heap_capacity 
      \<lparr>heap_used = 94371840, free_set_available = 10485760,
        collection_set_live_data = 9437184, heap_capacity = 1048576000\<rparr> * ShenandoahPacingIdleSlack 
      \<lparr>ShenandoahPacing = True, ShenandoahPacingCycleSlack = 10,
        ShenandoahPacingIdleSlack = 1, ShenandoahPacingMaxDelay = 10, LogHeapWordSize = 3\<rparr> div 100)
           * tax_rate \<lparr>budget = 1310720, tax_rate = 1, delays = ()\<rparr>)))
   \<and> tax_rate \<lparr>budget = 1310720, tax_rate = 1, delays = ()\<rparr> = 1
   \<and> heap_capacity 
      \<lparr>heap_used = 94371840, free_set_available = 10485760,
        collection_set_live_data = 9437184, heap_capacity = 1048576000\<rparr> * ShenandoahPacingIdleSlack 
      \<lparr>ShenandoahPacing = True, ShenandoahPacingCycleSlack = 10,
        ShenandoahPacingIdleSlack = 1, ShenandoahPacingMaxDelay = 10, LogHeapWordSize = 3\<rparr> div 100 = 10485760
   \<and> budget \<lparr>budget = 1310720, tax_rate = 1, delays = ()\<rparr> = drop_bit 3 10485760
   \<and> setup_for_mark 
      \<lparr>ShenandoahPacing = True, ShenandoahPacingCycleSlack = 10,
        ShenandoahPacingIdleSlack = 1, ShenandoahPacingMaxDelay = 10, LogHeapWordSize = 3\<rparr> 
      \<lparr>heap_used = 94371840, free_set_available = 10485760,
        collection_set_live_data = 9437184, heap_capacity = 1048576000\<rparr> [[]] \<lparr>budget = 500, tax_rate = 1, delays = ()\<rparr> = Inr \<lparr>budget = 4325376, tax_rate = 33, delays = ()\<rparr>
   \<and> budget \<lparr>budget = 4325376, tax_rate = 33, delays = ()\<rparr> = drop_bit (LogHeapWordSize 
      \<lparr>ShenandoahPacing = True, ShenandoahPacingCycleSlack = 10,
        ShenandoahPacingIdleSlack = 1, ShenandoahPacingMaxDelay = 10, LogHeapWordSize = 3\<rparr>) (word_of_int (truncation
        (jlong_to_double (free_set_available 
      \<lparr>heap_used = 94371840, free_set_available = 10485760,
        collection_set_live_data = 9437184, heap_capacity = 1048576000\<rparr> * ShenandoahPacingCycleSlack 
      \<lparr>ShenandoahPacing = True, ShenandoahPacingCycleSlack = 10,
        ShenandoahPacingIdleSlack = 1, ShenandoahPacingMaxDelay = 10, LogHeapWordSize = 3\<rparr> div 100)
           * tax_rate \<lparr>budget = 4325376, tax_rate = 33, delays = ()\<rparr>)))
   \<and> setup_for_evac 
      \<lparr>ShenandoahPacing = True, ShenandoahPacingCycleSlack = 10,
        ShenandoahPacingIdleSlack = 1, ShenandoahPacingMaxDelay = 10, LogHeapWordSize = 3\<rparr> 
      \<lparr>heap_used = 94371840, free_set_available = 10485760,
        collection_set_live_data = 9437184, heap_capacity = 1048576000\<rparr> [[]] \<lparr>budget = 500, tax_rate = 1, delays = ()\<rparr> = Inr \<lparr>budget = 288358, tax_rate = 2.2, delays = ()\<rparr>
   \<and> budget \<lparr>budget = 288358, tax_rate = 2.2, delays = ()\<rparr> = drop_bit (LogHeapWordSize 
      \<lparr>ShenandoahPacing = True, ShenandoahPacingCycleSlack = 10,
        ShenandoahPacingIdleSlack = 1, ShenandoahPacingMaxDelay = 10, LogHeapWordSize = 3\<rparr>) (word_of_int (truncation
        (jlong_to_double (free_set_available 
      \<lparr>heap_used = 94371840, free_set_available = 10485760,
        collection_set_live_data = 9437184, heap_capacity = 1048576000\<rparr> * ShenandoahPacingCycleSlack 
      \<lparr>ShenandoahPacing = True, ShenandoahPacingCycleSlack = 10,
        ShenandoahPacingIdleSlack = 1, ShenandoahPacingMaxDelay = 10, LogHeapWordSize = 3\<rparr> div 100)
           * tax_rate \<lparr>budget = 288358, tax_rate = 2.2, delays = ()\<rparr>)))
   \<and> setup_for_updaterefs 
      \<lparr>ShenandoahPacing = True, ShenandoahPacingCycleSlack = 10,
        ShenandoahPacingIdleSlack = 1, ShenandoahPacingMaxDelay = 10, LogHeapWordSize = 3\<rparr> 
      \<lparr>heap_used = 94371840, free_set_available = 10485760,
        collection_set_live_data = 9437184, heap_capacity = 1048576000\<rparr> [[]] \<lparr>budget = 500, tax_rate = 1, delays = ()\<rparr> = Inr \<lparr>budget = 1441792, tax_rate = 11, delays = ()\<rparr>
   \<and> budget \<lparr>budget = 1441792, tax_rate = 11, delays = ()\<rparr> = drop_bit (LogHeapWordSize 
      \<lparr>ShenandoahPacing = True, ShenandoahPacingCycleSlack = 10,
        ShenandoahPacingIdleSlack = 1, ShenandoahPacingMaxDelay = 10, LogHeapWordSize = 3\<rparr>) (word_of_int (truncation
        (jlong_to_double (free_set_available 
      \<lparr>heap_used = 94371840, free_set_available = 10485760,
        collection_set_live_data = 9437184, heap_capacity = 1048576000\<rparr> * ShenandoahPacingCycleSlack 
      \<lparr>ShenandoahPacing = True, ShenandoahPacingCycleSlack = 10,
        ShenandoahPacingIdleSlack = 1, ShenandoahPacingMaxDelay = 10, LogHeapWordSize = 3\<rparr> div 100)
           * tax_rate \<lparr>budget = 1441792, tax_rate = 11, delays = ()\<rparr>)))"
  (is "?c1 \<and> ?c2 \<and> ?c3 \<and> ?c4 \<and> ?c5 \<and> ?c6 \<and> ?c7 \<and> ?c8 \<and> ?c9 \<and> ?c10 \<and> ?c11")
proof -
  let ?g = "\<lparr>ShenandoahPacing = True, ShenandoahPacingCycleSlack = 10,
        ShenandoahPacingIdleSlack = 1, ShenandoahPacingMaxDelay = 10, LogHeapWordSize = 3\<rparr>"
  let ?h = "\<lparr>heap_used = 94371840, free_set_available = 10485760,
        collection_set_live_data = 9437184, heap_capacity = 1048576000\<rparr>"
  let ?s = "\<lparr>budget = 500, tax_rate = 1, delays = ()\<rparr>"
  let ?mark = "\<lparr>budget = 4325376, tax_rate = 33, delays = ()\<rparr>"
  let ?evac = "\<lparr>budget = 288358, tax_rate = 2.2, delays = ()\<rparr>"
  let ?updaterefs = "\<lparr>budget = 1441792, tax_rate = 11, delays = ()\<rparr>"
  let ?idle = "\<lparr>budget = 1310720, tax_rate = 1, delays = ()\<rparr>"
  have ten_MB: ?c4 ?c5
    by (simp_all add: drop_bit_eq_div)
  have ran: ?c1 ?c6 ?c8 ?c10
    by (rule example_idle example_mark example_evac example_updaterefs)+
  with phase_budgets [of ?g ?h "[[]]" ?s ?mark ?evac ?updaterefs ?idle]
  have ?c2 ?c3 ?c7 ?c9 ?c11
    by blast+
  with ten_MB ran show ?thesis
    by (intro conjI)
qed

subsection \<open>Pacing an allocation\<close>

text \<open>
  C10. \<open>pace_for_alloc\<close> changes \<open>_delays\<close> only on the slow path. When the first claim
  succeeds, \<open>_delays\<close> is as before. When it fails and the call returns, the call has
  added one entry: the milliseconds read in the round where the loop stopped, every
  round before it having read at most \<open>ShenandoahPacingMaxDelay\<close>. That round is the one
  where the call returns: on the rounds before it alone the call is still waiting.
\<close>

theorem pace_for_alloc_delays:
  assumes "pace_for_alloc add g words fast_sched start ticks s = Inr s'"
  shows "(\<forall>s1. claim_for_alloc g words False fast_sched s = Inr (True, s1)
            \<longrightarrow> delays s' = delays s)
       \<and> (\<forall>s1. claim_for_alloc g words False fast_sched s = Inr (False, s1)
            \<longrightarrow> (\<exists>pre t post ms.
                  ticks = pre @ t # post
                  \<and> double_to_size_t ((elapsedTime t - start) * 1000) = Inr ms
                  \<and> delays s' = add ms (delays s)
                  \<and> (\<forall>u \<in> set pre. \<exists>m.
                        double_to_size_t ((elapsedTime u - start) * 1000) = Inr m
                        \<and> m \<le> ShenandoahPacingMaxDelay g)
                  \<and> pace_for_alloc add g words fast_sched start pre s
                      = Inl Schedule_exhausted
                  \<and> pace_for_alloc add g words fast_sched start (pre @ [t]) s = Inr s'))"
proof (intro conjI allI impI)
  fix s1
  assume fast: "claim_for_alloc g words False fast_sched s = Inr (True, s1)"
  with assms have "s' = s1"
    by (simp add: pace_for_alloc_def split: if_splits)
  with claim_for_alloc_delays [OF fast] show "delays s' = delays s" by simp
next
  fix s1
  assume slow: "claim_for_alloc g words False fast_sched s = Inr (False, s1)"
  from assms have pacing: "ShenandoahPacing g"
    by (simp add: pace_for_alloc_def split: if_splits)
  from pacing slow have loop: "pace_for_alloc add g words fast_sched start rounds s
      = pace_loop add g words (ShenandoahPacingMaxDelay g) start rounds s1" for rounds
    by (simp add: pace_for_alloc_def)
  from assms have "pace_loop add g words (ShenandoahPacingMaxDelay g) start ticks s1 = Inr s'"
    by (simp only: loop)
  from pace_loop_stopping_round [OF this] claim_for_alloc_delays [OF slow]
  show "\<exists>pre t post ms.
          ticks = pre @ t # post
          \<and> double_to_size_t ((elapsedTime t - start) * 1000) = Inr ms
          \<and> delays s' = add ms (delays s)
          \<and> (\<forall>u \<in> set pre. \<exists>m.
                double_to_size_t ((elapsedTime u - start) * 1000) = Inr m
                \<and> m \<le> ShenandoahPacingMaxDelay g)
          \<and> pace_for_alloc add g words fast_sched start pre s = Inl Schedule_exhausted
          \<and> pace_for_alloc add g words fast_sched start (pre @ [t]) s = Inr s'"
    by (simp add: loop)
qed

theorem pace_for_alloc_delays_witness:
  "pace_for_alloc (#) 
      \<lparr>ShenandoahPacing = True, ShenandoahPacingCycleSlack = 10,
        ShenandoahPacingIdleSlack = 1, ShenandoahPacingMaxDelay = 10, LogHeapWordSize = 3\<rparr>
      1000 [[]] 5 [] \<lparr>budget = 2000, tax_rate = 1, delays = []\<rparr>
     = Inr \<lparr>budget = 1000, tax_rate = 1, delays = []\<rparr>
   \<and> delays \<lparr>budget = 1000, tax_rate = 1, delays = []\<rparr>
     = delays \<lparr>budget = 2000, tax_rate = 1, delays = [] :: size_t list\<rparr>
   \<and> pace_for_alloc (#) 
      \<lparr>ShenandoahPacing = True, ShenandoahPacingCycleSlack = 10,
        ShenandoahPacingIdleSlack = 1, ShenandoahPacingMaxDelay = 10, LogHeapWordSize = 3\<rparr>
      1000 [[]] 5
       [\<lparr>during_sleep = [], elapsedTime = 5.001, claim_sched = [[]]\<rparr>,
      \<lparr>during_sleep = [], elapsedTime = 5.012, claim_sched = [[]]\<rparr>]
       \<lparr>budget = 500, tax_rate = 1, delays = []\<rparr>
     = Inr \<lparr>budget = 500, tax_rate = 1, delays = [12]\<rparr>
   \<and> (\<exists>pre t post ms.
         [\<lparr>during_sleep = [], elapsedTime = 5.001, claim_sched = [[]]\<rparr>,
      \<lparr>during_sleep = [], elapsedTime = 5.012, claim_sched = [[]]\<rparr>] = pre @ t # post
         \<and> double_to_size_t ((elapsedTime t - 5) * 1000) = Inr ms
         \<and> delays \<lparr>budget = 500, tax_rate = 1, delays = [12]\<rparr>
             = ms # delays \<lparr>budget = 500, tax_rate = 1, delays = []\<rparr>
         \<and> (\<forall>u \<in> set pre. \<exists>m.
               double_to_size_t ((elapsedTime u - 5) * 1000) = Inr m
               \<and> m \<le> ShenandoahPacingMaxDelay
      \<lparr>ShenandoahPacing = True, ShenandoahPacingCycleSlack = 10,
        ShenandoahPacingIdleSlack = 1, ShenandoahPacingMaxDelay = 10, LogHeapWordSize = 3\<rparr>)
         \<and> pace_for_alloc (#)
      \<lparr>ShenandoahPacing = True, ShenandoahPacingCycleSlack = 10,
        ShenandoahPacingIdleSlack = 1, ShenandoahPacingMaxDelay = 10, LogHeapWordSize = 3\<rparr>
      1000 [[]] 5 pre \<lparr>budget = 500, tax_rate = 1, delays = []\<rparr>
             = Inl Schedule_exhausted
         \<and> pace_for_alloc (#)
      \<lparr>ShenandoahPacing = True, ShenandoahPacingCycleSlack = 10,
        ShenandoahPacingIdleSlack = 1, ShenandoahPacingMaxDelay = 10, LogHeapWordSize = 3\<rparr>
      1000 [[]] 5 (pre @ [t]) \<lparr>budget = 500, tax_rate = 1, delays = []\<rparr>
             = Inr \<lparr>budget = 500, tax_rate = 1, delays = [12]\<rparr>)
   \<and> pace_for_alloc (#) 
      \<lparr>ShenandoahPacing = True, ShenandoahPacingCycleSlack = 10,
        ShenandoahPacingIdleSlack = 1, ShenandoahPacingMaxDelay = 10, LogHeapWordSize = 3\<rparr>
      1000 [[]] 5
       [\<lparr>during_sleep = [], elapsedTime = 5.001, claim_sched = [[]]\<rparr>,
      \<lparr>during_sleep = [Store_budget 3000], elapsedTime = 5.0025, claim_sched = [[]]\<rparr>]
       \<lparr>budget = 500, tax_rate = 1, delays = []\<rparr>
     = Inr \<lparr>budget = 2000, tax_rate = 1, delays = [2]\<rparr>
   \<and> (\<exists>pre t post ms.
         [\<lparr>during_sleep = [], elapsedTime = 5.001, claim_sched = [[]]\<rparr>,
      \<lparr>during_sleep = [Store_budget 3000], elapsedTime = 5.0025, claim_sched = [[]]\<rparr>] = pre @ t # post
         \<and> double_to_size_t ((elapsedTime t - 5) * 1000) = Inr ms
         \<and> delays \<lparr>budget = 2000, tax_rate = 1, delays = [2]\<rparr>
             = ms # delays \<lparr>budget = 500, tax_rate = 1, delays = []\<rparr>
         \<and> (\<forall>u \<in> set pre. \<exists>m.
               double_to_size_t ((elapsedTime u - 5) * 1000) = Inr m
               \<and> m \<le> ShenandoahPacingMaxDelay
      \<lparr>ShenandoahPacing = True, ShenandoahPacingCycleSlack = 10,
        ShenandoahPacingIdleSlack = 1, ShenandoahPacingMaxDelay = 10, LogHeapWordSize = 3\<rparr>)
         \<and> pace_for_alloc (#)
      \<lparr>ShenandoahPacing = True, ShenandoahPacingCycleSlack = 10,
        ShenandoahPacingIdleSlack = 1, ShenandoahPacingMaxDelay = 10, LogHeapWordSize = 3\<rparr>
      1000 [[]] 5 pre \<lparr>budget = 500, tax_rate = 1, delays = []\<rparr>
             = Inl Schedule_exhausted
         \<and> pace_for_alloc (#)
      \<lparr>ShenandoahPacing = True, ShenandoahPacingCycleSlack = 10,
        ShenandoahPacingIdleSlack = 1, ShenandoahPacingMaxDelay = 10, LogHeapWordSize = 3\<rparr>
      1000 [[]] 5 (pre @ [t]) \<lparr>budget = 500, tax_rate = 1, delays = []\<rparr>
             = Inr \<lparr>budget = 2000, tax_rate = 1, delays = [2]\<rparr>)"
  (is "?fast \<and> ?unchanged \<and> ?late \<and> ?added \<and> ?retried \<and> ?added'")
proof -
  have ?unchanged
    by (rule pace_for_alloc_delays [OF example_fast_path, THEN conjunct1, rule_format,
          OF example_claims(1)])
  moreover have ?added
    by (rule pace_for_alloc_delays [OF example_past_deadline, THEN conjunct2, rule_format,
          OF example_claims(2)])
  moreover have ?added'
    by (rule pace_for_alloc_delays [OF example_replenished, THEN conjunct2, rule_format,
          OF example_claims(2)])
  ultimately show ?thesis
    using example_fast_path example_past_deadline example_replenished by (intro conjI)
qed

text \<open>
  C2. A claim with \<open>force = true\<close> against a budget smaller than the cost: 1000 words
  at tax rate 1 against a budget of 500 return false and leave the budget at 500, and
  so does the call that \<open>pace_for_alloc\<close> makes once the wait has passed the limit.
\<close>

theorem forced_claim_leaves_budget:
  "claim_for_alloc 
      \<lparr>ShenandoahPacing = True, ShenandoahPacingCycleSlack = 10,
        ShenandoahPacingIdleSlack = 1, ShenandoahPacingMaxDelay = 10, LogHeapWordSize = 3\<rparr>
      1000 True [[]] \<lparr>budget = 500, tax_rate = 1, delays = []\<rparr>
     = Inr (False, \<lparr>budget = 500, tax_rate = 1, delays = []\<rparr>)
   \<and> pace_for_alloc (#) 
      \<lparr>ShenandoahPacing = True, ShenandoahPacingCycleSlack = 10,
        ShenandoahPacingIdleSlack = 1, ShenandoahPacingMaxDelay = 10, LogHeapWordSize = 3\<rparr>
      1000 [[]] 5
       [\<lparr>during_sleep = [], elapsedTime = 5.001, claim_sched = [[]]\<rparr>,
      \<lparr>during_sleep = [], elapsedTime = 5.012, claim_sched = [[]]\<rparr>]
       \<lparr>budget = 500, tax_rate = 1, delays = []\<rparr>
     = Inr \<lparr>budget = 500, tax_rate = 1, delays = [12]\<rparr>"
  using example_claims(3) example_past_deadline by (intro conjI)

end
